theory Spec2Isabelle
  imports Main
begin

section \<open>JSON-RPC messages\<close>

text \<open>
  A request id is a JSON string or a JSON integer. The transport tests an id with
  JavaScript's \<open>!requestId\<close>, which is true of \<open>undefined\<close>, of the number
  \<open>0\<close> and of the empty string.
\<close>

datatype request_id = IdNum int | IdStr string

fun truthy_id :: "request_id \<Rightarrow> bool" where
  "truthy_id (IdNum n) = (n \<noteq> 0)"
| "truthy_id (IdStr s) = (s \<noteq> [])"

datatype json =
    JNull
  | JBool bool
  | JNum int
  | JStr string
  | JArr "json list"
  | JObj "(string \<times> json) list"

text \<open>
  \<open>JSONRPCMessage\<close> is the union of the four JSON-RPC shapes: a request carries
  \<open>id\<close> and \<open>method\<close>, a notification \<open>method\<close> only, a response \<open>id\<close> and
  \<open>result\<close>, an error response \<open>id\<close> and \<open>error\<close>. The transports only ever look
  at which of these fields is present, at \<open>id\<close> and at \<open>method\<close>.
\<close>

datatype message =
    Request request_id string "json option"
  | Notification string "json option"
  | Response request_id json
  | ErrorResponse request_id json

fun has_method :: "message \<Rightarrow> bool" where
  "has_method (Request i m p) = True"
| "has_method (Notification m p) = True"
| "has_method (Response i r) = False"
| "has_method (ErrorResponse i e) = False"

fun has_id :: "message \<Rightarrow> bool" where
  "has_id (Request i m p) = True"
| "has_id (Notification m p) = False"
| "has_id (Response i r) = True"
| "has_id (ErrorResponse i e) = True"

fun has_result :: "message \<Rightarrow> bool" where
  "has_result (Response i r) = True"
| "has_result m = False"

fun has_error :: "message \<Rightarrow> bool" where
  "has_error (ErrorResponse i e) = True"
| "has_error m = False"

fun message_id :: "message \<Rightarrow> request_id option" where
  "message_id (Request i m p) = Some i"
| "message_id (Notification m p) = None"
| "message_id (Response i r) = Some i"
| "message_id (ErrorResponse i e) = Some i"

fun message_method :: "message \<Rightarrow> string option" where
  "message_method (Request i m p) = Some m"
| "message_method (Notification m p) = Some m"
| "message_method (Response i r) = None"
| "message_method (ErrorResponse i e) = None"

section \<open>Strings\<close>

text \<open>\<open>String.prototype.startsWith\<close> and \<open>String.prototype.includes\<close>.\<close>

fun startsWith :: "string \<Rightarrow> string \<Rightarrow> bool" where
  "startsWith s [] = True"
| "startsWith [] (p # ps) = False"
| "startsWith (c # cs) (p # ps) = (c = p \<and> startsWith cs ps)"

fun includes_str :: "string \<Rightarrow> string \<Rightarrow> bool" where
  "includes_str [] sub = (sub = [])"
| "includes_str (c # cs) sub = (startsWith (c # cs) sub \<or> includes_str cs sub)"

section \<open>The server transport (server/streamableHttp.js)\<close>

subsection \<open>Requests, responses and the effects of a handler\<close>

text \<open>
  A \<open>ServerResponse\<close> object is known by its identity: two request ids of one batch
  share the same object. \<open>res\<close> is that identity.
\<close>

type_synonym res = nat

text \<open>A header of \<open>IncomingMessage.headers\<close> is a string or an array of strings.\<close>

datatype header_value = Single string | Multiple "string list"

record request =
  req_method :: string
  accept :: "string option"
  content_type :: "string option"
  mcp_session_id :: "header_value option"

text \<open>
  The body of a POST as \<open>handlePostRequest\<close> meets it. \<open>JSONRPCMessageSchema.parse\<close>
  either returns the message or throws; \<open>getRawBody\<close>, \<open>contentType.parse\<close> and
  \<open>JSON.parse\<close> either yield a value or throw. The value is an array or not.
  \<open>getRawBody\<close> is called with the limit \<open>MAXIMUM_MESSAGE_SIZE = "4mb"\<close>: for a
  body that is longer it throws, which is a \<open>BodyError\<close> here, as is a body that is not
  JSON and a content type or charset that cannot be read.
\<close>

datatype raw_value = Conforming message | NonConforming string

datatype raw_body = BodyError string | BodyValue raw_value | BodyArray "raw_value list"

text \<open>
  What a handler writes with \<open>res.end\<close>: nothing, or the JSON-RPC error envelope
  \<open>{jsonrpc: "2.0", error: {code, message, data?}, id: null}\<close>.
\<close>

datatype body = NoBody | ErrorBody int string "string option"

text \<open>
  The effects of the transport, in the order they happen: calls on a response object,
  updates of \<open>_sseResponseMapping\<close>, and calls of the three callback slots.
\<close>

datatype event =
    WriteHead res nat "(string \<times> string) list"
  | Write res string
  | End res body
  | ResOnClose res
  | MapSet request_id res
  | MapDelete request_id
  | MapClear
  | OnMessage message
  | OnError string
  | OnClose

text \<open>
  \<open>_sseResponseMapping\<close> is a JavaScript \<open>Map\<close>: it keeps its keys in insertion order,
  \<open>set\<close> on a key it holds replaces the value in place, and \<open>forEach\<close> walks the
  entries in that order.
\<close>

type_synonym response_map = "(request_id \<times> res) list"

fun map_set :: "request_id \<Rightarrow> res \<Rightarrow> response_map \<Rightarrow> response_map" where
  "map_set k v [] = [(k, v)]"
| "map_set k v ((k', v') # m) = (if k' = k then (k, v) # m else (k', v') # map_set k v m)"

fun map_get :: "response_map \<Rightarrow> request_id \<Rightarrow> res option" where
  "map_get [] k = None"
| "map_get ((k', v') # m) k = (if k' = k then Some v' else map_get m k)"

fun map_delete :: "request_id \<Rightarrow> response_map \<Rightarrow> response_map" where
  "map_delete k [] = []"
| "map_delete k ((k', v') # m) = (if k' = k then map_delete k m else (k', v') # map_delete k m)"

text \<open>
  The transport object. \<open>sessionIdGenerator\<close> is called once in the life of a
  transport (by the first accepted initialize); the field holds what it returns.
\<close>

record server =
  started :: bool
  sseResponseMapping :: response_map
  initialized :: bool
  sessionId :: "string option"
  sessionIdGenerator :: "string option"
  log :: "event list"

definition emit :: "event list \<Rightarrow> server \<Rightarrow> server" where
  "emit es s = s\<lparr>log := log s @ es\<rparr>"

text \<open>\<open>res.writeHead(status, headers).end(body)\<close>\<close>

definition respond :: "res \<Rightarrow> nat \<Rightarrow> (string \<times> string) list \<Rightarrow> body \<Rightarrow> server \<Rightarrow> server" where
  "respond r status headers b s = emit [WriteHead r status headers, End r b] s"

text \<open>\<open>for (const message of messages) this.onmessage?.(message)\<close>\<close>

definition deliver :: "message list \<Rightarrow> server \<Rightarrow> server" where
  "deliver messages s = emit (map OnMessage messages) s"

datatype start_error = AlreadyStarted

definition start :: "server \<Rightarrow> start_error + server" where
  "start s = (if started s then Inl AlreadyStarted else Inr (s\<lparr>started := True\<rparr>))"

subsection \<open>validateSession\<close>

definition validateSession :: "request \<Rightarrow> res \<Rightarrow> server \<Rightarrow> bool \<times> server" where
  "validateSession req r s =
    (if \<not> initialized s then
       (False, respond r 400 [] (ErrorBody (- 32000) ''Bad Request: Server not initialized'' None) s)
     else case sessionId s of
       None \<Rightarrow> (True, s)
     | Some sid \<Rightarrow>
        (case mcp_session_id req of
           None \<Rightarrow>
             (False, respond r 400 []
                (ErrorBody (- 32000) ''Bad Request: Mcp-Session-Id header is required'' None) s)
         | Some (Multiple hs) \<Rightarrow>
             (False, respond r 400 []
                (ErrorBody (- 32000) ''Bad Request: Mcp-Session-Id header must be a single value'' None) s)
         | Some (Single h) \<Rightarrow>
             if h = [] then
               (False, respond r 400 []
                  (ErrorBody (- 32000) ''Bad Request: Mcp-Session-Id header is required'' None) s)
             else if h \<noteq> sid then
               (False, respond r 404 [] (ErrorBody (- 32001) ''Session not found'' None) s)
             else (True, s)))"

subsection \<open>handlePostRequest\<close>

text \<open>Lines 118 to 137: the body is read and every message goes through the schema.\<close>

fun parse_values :: "raw_value list \<Rightarrow> string + message list" where
  "parse_values [] = Inr []"
| "parse_values (NonConforming e # vs) = Inl e"
| "parse_values (Conforming m # vs) =
     (case parse_values vs of Inl e \<Rightarrow> Inl e | Inr ms \<Rightarrow> Inr (m # ms))"

fun parse_body :: "raw_body \<Rightarrow> string + message list" where
  "parse_body (BodyError e) = Inl e"
| "parse_body (BodyValue v) = parse_values [v]"
| "parse_body (BodyArray vs) = parse_values vs"

definition isInitializationRequest :: "message list \<Rightarrow> bool" where
  "isInitializationRequest messages =
     list_ex (\<lambda>msg. has_method msg \<and> message_method msg = Some ''initialize'') messages"

definition hasRequests :: "message list \<Rightarrow> bool" where
  "hasRequests messages = list_ex (\<lambda>msg. has_method msg \<and> has_id msg) messages"

definition hasOnlyNotificationsOrResponses :: "message list \<Rightarrow> bool" where
  "hasOnlyNotificationsOrResponses messages =
     list_all (\<lambda>msg. (has_method msg \<and> \<not> has_id msg) \<or> (has_result msg \<or> has_error msg)) messages"

definition accept_ok :: "string option \<Rightarrow> bool" where
  "accept_ok a = (case a of None \<Rightarrow> False
     | Some h \<Rightarrow> includes_str h ''application/json'' \<and> includes_str h ''text/event-stream'')"

definition content_type_ok :: "string option \<Rightarrow> bool" where
  "content_type_ok c = (case c of None \<Rightarrow> False
     | Some h \<Rightarrow> h \<noteq> [] \<and> includes_str h ''application/json'')"

definition session_header :: "server \<Rightarrow> (string \<times> string) list" where
  "session_header s = (case sessionId s of None \<Rightarrow> [] | Some sid \<Rightarrow> [(''mcp-session-id'', sid)])"

definition sse_headers :: "server \<Rightarrow> (string \<times> string) list" where
  "sse_headers s =
     [(''Content-Type'', ''text/event-stream''), (''Cache-Control'', ''no-cache''),
      (''Connection'', ''keep-alive'')] @ session_header s"

text \<open>
  Lines 207 to 211: every request of the batch is stored under its id, each
  \<open>Map.set\<close> recorded as it happens.
\<close>

fun store_requests :: "res \<Rightarrow> message list \<Rightarrow> server \<Rightarrow> server" where
  "store_requests r [] s = s"
| "store_requests r (msg # msgs) s =
     store_requests r msgs
       (if has_method msg \<and> has_id msg then
          (case message_id msg of
             None \<Rightarrow> s
           | Some i \<Rightarrow> emit [MapSet i r] (s\<lparr>sseResponseMapping := map_set i r (sseResponseMapping s)\<rparr>))
        else s)"

definition handlePostRequest :: "request \<Rightarrow> res \<Rightarrow> raw_body \<Rightarrow> server \<Rightarrow> server" where
  "handlePostRequest req r rawBody s =
    (if \<not> accept_ok (accept req) then
       respond r 406 []
         (ErrorBody (- 32000)
            ''Not Acceptable: Client must accept both application/json and text/event-stream'' None) s
     else if \<not> content_type_ok (content_type req) then
       respond r 415 []
         (ErrorBody (- 32000) ''Unsupported Media Type: Content-Type must be application/json'' None) s
     else case parse_body rawBody of
       Inl err \<Rightarrow>
         emit [OnError err] (respond r 400 [] (ErrorBody (- 32700) ''Parse error'' (Some err)) s)
     | Inr messages \<Rightarrow>
        (if isInitializationRequest messages then
           (if initialized s then
              respond r 400 []
                (ErrorBody (- 32600) ''Invalid Request: Server already initialized'' None) s
            else if length messages > 1 then
              respond r 400 []
                (ErrorBody (- 32600) ''Invalid Request: Only one initialization request is allowed'' None) s
            else
              (let s1 = s\<lparr>sessionId := sessionIdGenerator s, initialized := True\<rparr>;
                   headers = session_header s1;
                   s2 = deliver messages s1
               in respond r 200 headers NoBody s2))
         else
           (case validateSession req r s of
              (False, s') \<Rightarrow> s'
            | (True, s') \<Rightarrow>
               (if hasOnlyNotificationsOrResponses messages then
                  deliver messages (respond r 202 [] NoBody s')
                else if hasRequests messages then
                  (let headers = sse_headers s';
                       s1 = emit [WriteHead r 200 headers] s';
                       s2 = store_requests r messages s1;
                       s3 = emit [ResOnClose r] s2
                   in deliver messages s3)
                else s'))))"

text \<open>
  The listener installed by \<open>res.on("close", ...)\<close> (lines 213 to 220): when the
  peer goes away, every entry that refers to this response is dropped.
\<close>

definition res_closed :: "res \<Rightarrow> server \<Rightarrow> server" where
  "res_closed r s =
     (let gone = filter (\<lambda>(i, r'). r' = r) (sseResponseMapping s)
      in emit (map (\<lambda>(i, r'). MapDelete i) gone)
           (s\<lparr>sseResponseMapping := filter (\<lambda>(i, r'). r' \<noteq> r) (sseResponseMapping s)\<rparr>))"

subsection \<open>close, handleDeleteRequest, handleRequest\<close>

definition close :: "server \<Rightarrow> server" where
  "close s =
     emit (map (\<lambda>(i, r). End r NoBody) (sseResponseMapping s) @ [MapClear, OnClose])
       (s\<lparr>sseResponseMapping := []\<rparr>)"

definition handleDeleteRequest :: "request \<Rightarrow> res \<Rightarrow> server \<Rightarrow> server" where
  "handleDeleteRequest req r s =
     (case validateSession req r s of
        (False, s') \<Rightarrow> s'
      | (True, s') \<Rightarrow> respond r 200 [] NoBody (close s'))"

definition handleUnsupportedRequest :: "res \<Rightarrow> server \<Rightarrow> server" where
  "handleUnsupportedRequest r s =
     respond r 405 [(''Allow'', ''POST, DELETE'')] (ErrorBody (- 32000) ''Method not allowed.'' None) s"

definition handleRequest :: "request \<Rightarrow> res \<Rightarrow> raw_body \<Rightarrow> server \<Rightarrow> server" where
  "handleRequest req r rawBody s =
     (if req_method req = ''POST'' then handlePostRequest req r rawBody s
      else if req_method req = ''DELETE'' then handleDeleteRequest req r s
      else handleUnsupportedRequest r s)"

subsection \<open>send\<close>

datatype send_error = NoRequestId | NoConnection request_id

definition newline :: char where
  "newline = CHR 0x0A"

text \<open>The template \<open>`event: message\ndata: ${JSON.stringify(message)}\n\n`\<close> of line 340.\<close>

definition sse_frame :: "string \<Rightarrow> string" where
  "sse_frame text = ''event: message'' @ [newline] @ ''data: '' @ text @ [newline, newline]"

text \<open>
  \<open>send(message, options)\<close>. \<open>stringify\<close> stands for \<open>JSON.stringify\<close> on a message;
  \<open>relatedRequestId\<close> is \<open>options?.relatedRequestId\<close>. The two \<open>throw\<close>s are the
  two errors.
\<close>

definition send ::
  "(message \<Rightarrow> string) \<Rightarrow> message \<Rightarrow> request_id option \<Rightarrow> server \<Rightarrow> send_error + server" where
  "send stringify message relatedRequestId s =
    (let isResponse = (has_result message \<or> has_error message);
         requestId = (if isResponse then message_id message else relatedRequestId);
         shouldCloseConnection = isResponse
     in case requestId of
          None \<Rightarrow> Inl NoRequestId
        | Some rid \<Rightarrow>
           (if \<not> truthy_id rid then Inl NoRequestId
            else case map_get (sseResponseMapping s) rid of
              None \<Rightarrow> Inl (NoConnection rid)
            | Some sseResponse \<Rightarrow>
               (let s1 = emit [Write sseResponse (sse_frame (stringify message))] s
                in if shouldCloseConnection then
                     (let s2 = emit [MapDelete rid]
                                 (s1\<lparr>sseResponseMapping := map_delete rid (sseResponseMapping s1)\<rparr>);
                          canCloseConnection =
                            (\<not> list_ex (\<lambda>(i, r). r = sseResponse \<and> i \<noteq> rid) (sseResponseMapping s2))
                      in Inr (if canCloseConnection then emit [End sseResponse NoBody] s2 else s2))
                   else Inr s1)))"

section \<open>The client transport (client/streamableHttp.js)\<close>

subsection \<open>The SSE codec of handleSseStream\<close>

text \<open>
  A \<open>char\<close> stands for a UTF-16 code unit below 256; the chunks are the texts
  \<open>decoder.decode(value, {stream: true})\<close> returns, read after read.

  \<open>String.prototype.split\<close> with a separator that is not empty (\<open>'\n\n'\<close> and
  \<open>'\n'\<close> here): the string is scanned from the left, and every occurrence found
  ends a piece.
\<close>

function split_str :: "string \<Rightarrow> string \<Rightarrow> string list" where
  "split_str [] sep = [[]]"
| "split_str (c # cs) sep =
     (if sep \<noteq> [] \<and> startsWith (c # cs) sep then [] # split_str (drop (length sep) (c # cs)) sep
      else (case split_str cs sep of [] \<Rightarrow> [[c]] | p # ps \<Rightarrow> (c # p) # ps))"
  by pat_completeness auto
termination
  by (relation "measure (\<lambda>(s, sep). length s)") auto

text \<open>
  \<open>String.prototype.trim\<close> removes white space and line terminators from both ends;
  below 256 these are tab, line feed, vertical tab, form feed, carriage return,
  space and the no-break space.
\<close>

definition is_ws :: "char \<Rightarrow> bool" where
  "is_ws c = (c = CHR 0x09 \<or> c = CHR 0x0A \<or> c = CHR 0x0B \<or> c = CHR 0x0C \<or> c = CHR 0x0D
     \<or> c = CHR 0x20 \<or> c = CHR 0xA0)"

definition trim :: "string \<Rightarrow> string" where
  "trim s = rev (dropWhile is_ws (rev (dropWhile is_ws s)))"

text \<open>The three variables \<open>id\<close>, \<open>eventType\<close> and \<open>data\<close> of one event.\<close>

record sse_fields =
  ev_id :: "string option"
  ev_eventType :: "string option"
  ev_data :: "string option"

definition no_fields :: sse_fields where
  "no_fields = \<lparr>ev_id = None, ev_eventType = None, ev_data = None\<rparr>"

text \<open>The body of the loop over the lines of an event (lines 253 to 263).\<close>

definition parse_line :: "string \<Rightarrow> sse_fields \<Rightarrow> sse_fields" where
  "parse_line line f =
    (if startsWith line ''id:'' then f\<lparr>ev_id := Some (trim (drop 3 line))\<rparr>
     else if startsWith line ''event:'' then f\<lparr>ev_eventType := Some (trim (drop 6 line))\<rparr>
     else if startsWith line ''data:'' then f\<lparr>ev_data := Some (trim (drop 5 line))\<rparr>
     else f)"

definition parse_event :: "string \<Rightarrow> sse_fields" where
  "parse_event ev = fold parse_line (split_str ev [newline]) no_fields"

text \<open>
  Where one SSE stream came from: the standalone GET (\<open>initial-<now>\<close>) or the
  answer to a POST (\<open>req-<ids>-<now>\<close>).
\<close>

datatype stream_id = InitialStream nat | RequestStream "request_id list" nat

datatype client_error =
    NetworkError string
  | AuthThrew string
  | UnauthorizedError
  | PostError nat "string option"
  | ParseError string
  | ReadError string

text \<open>What a client sends: one message or an array of messages.\<close>

datatype outgoing = One message | Many "message list"

record fetch_call =
  f_method :: string
  f_authorization :: "string option"
  f_session_id :: "string option"
  f_content_type :: "string option"
  f_accept :: "string option"
  f_body :: "outgoing option"

datatype client_event =
    Fetch fetch_call
  | AuthFlow
  | ClientOnMessage message
  | ClientOnError client_error

text \<open>
  The fields of the transport that \<open>send\<close> and the stream handler use:
  \<open>_sessionId\<close>, \<open>_lastEventId\<close>, whether an \<open>authProvider\<close> was given, the keys
  of the \<open>_activeStreams\<close> map in insertion order, and the effects so far.
\<close>

record client =
  c_sessionId :: "string option"
  c_lastEventId :: "string option"
  c_authProvider :: bool
  c_activeStreams :: "stream_id list"
  c_log :: "client_event list"

definition c_emit :: "client_event list \<Rightarrow> client \<Rightarrow> client" where
  "c_emit es c = c\<lparr>c_log := c_log c @ es\<rparr>"

text \<open>
  One event of the buffer (lines 248 to 281). \<open>parse\<close> stands for
  \<open>JSONRPCMessageSchema.parse(JSON.parse(data))\<close>: the message, or what was thrown.
  \<open>if (id)\<close>, \<open>if (data)\<close> and \<open>!eventType\<close> test for a string that is there and not
  empty.
\<close>

definition process_event :: "(string \<Rightarrow> string + message) \<Rightarrow> string \<Rightarrow> client \<Rightarrow> client" where
  "process_event parse ev c =
    (let f = parse_event ev;
         c1 = (case ev_id f of
                 None \<Rightarrow> c
               | Some i \<Rightarrow> if i \<noteq> [] then c\<lparr>c_lastEventId := Some i\<rparr> else c)
     in case ev_data f of
          None \<Rightarrow> c1
        | Some d \<Rightarrow>
           (if d \<noteq> [] then
              (if ev_eventType f = None \<or> ev_eventType f = Some [] \<or> ev_eventType f = Some ''message''
               then (case parse d of
                       Inr m \<Rightarrow> c_emit [ClientOnMessage m] c1
                     | Inl e \<Rightarrow> c_emit [ClientOnError (ParseError e)] c1)
               else c1)
            else c1))"

text \<open>
  The read loop (lines 236 to 283) over the chunks the reader delivers, with the
  local variable \<open>buffer\<close>: the text is appended, split at blank lines, the last
  piece is kept and the others are handled in order.
\<close>

fun processStream ::
  "(string \<Rightarrow> string + message) \<Rightarrow> string \<Rightarrow> string list \<Rightarrow> client \<Rightarrow> string \<times> client" where
  "processStream parse buffer [] c = (buffer, c)"
| "processStream parse buffer (chunk # chunks) c =
     (let events = split_str (buffer @ chunk) [newline, newline]
      in processStream parse (last events) chunks (fold (process_event parse) (butlast events) c))"

text \<open>How a body stream ends: the reader reports \<open>done\<close>, or \<open>read\<close> throws.\<close>

datatype stream_end = Done | ReadFails string

definition handleSseStream ::
  "(string \<Rightarrow> string + message) \<Rightarrow> (string list \<times> stream_end) option \<Rightarrow> stream_id \<Rightarrow> client \<Rightarrow> client" where
  "handleSseStream parse stream streamId c =
    (case stream of
       None \<Rightarrow> c
     | Some (chunks, ending) \<Rightarrow>
        (let c1 = c\<lparr>c_activeStreams :=
                      (if streamId \<in> set (c_activeStreams c) then c_activeStreams c
                       else c_activeStreams c @ [streamId])\<rparr>;
             c2 = snd (processStream parse [] chunks c1);
             c3 = c2\<lparr>c_activeStreams := removeAll streamId (c_activeStreams c2)\<rparr>
         in case ending of
              Done \<Rightarrow> c3
            | ReadFails e \<Rightarrow> c_emit [ClientOnError (ReadError e)] c3))"

subsection \<open>send\<close>

text \<open>
  What the client meets outside itself: the outcomes of its successive \<open>fetch\<close>
  calls, of its successive calls of \<open>auth\<close>, of its successive calls of
  \<open>authProvider.tokens()\<close>, and \<open>Date.now()\<close>. A call past the end of a list
  fails (a token is then absent).
\<close>

record response =
  status :: nat
  resp_session_id :: "string option"
  resp_content_type :: "string option"
  resp_text :: "string option"
  resp_json :: raw_body
  resp_stream :: "(string list \<times> stream_end) option"

datatype fetch_result = FetchThrows string | FetchResponse response

datatype auth_result = AUTHORIZED | REDIRECT | AuthThrows string

record world =
  fetches :: "fetch_result list"
  auths :: "auth_result list"
  tokens :: "string option list"
  now :: nat

definition ok :: "response \<Rightarrow> bool" where
  "ok resp = (200 \<le> status resp \<and> status resp \<le> 299)"

text \<open>\<open>_commonHeaders\<close>: the bearer token, if any, and the session id, if known.\<close>

definition commonHeaders :: "client \<Rightarrow> world \<Rightarrow> (string option \<times> string option) \<times> world" where
  "commonHeaders c w =
    (let (authorization, w1) =
           (if c_authProvider c then
              (case tokens w of
                 [] \<Rightarrow> (None, w)
               | t # ts \<Rightarrow> (map_option (\<lambda>access_token. ''Bearer '' @ access_token) t, w\<lparr>tokens := ts\<rparr>))
            else (None, w));
         session = (case c_sessionId c of
                      None \<Rightarrow> None
                    | Some sid \<Rightarrow> if sid \<noteq> [] then Some sid else None)
     in ((authorization, session), w1))"

definition messages_of :: "outgoing \<Rightarrow> message list" where
  "messages_of message = (case message of One m \<Rightarrow> [m] | Many ms \<Rightarrow> ms)"

definition requestIds :: "message list \<Rightarrow> request_id list" where
  "requestIds messages =
     List.map_filter message_id (filter (\<lambda>msg. has_method msg \<and> has_id msg) messages)"

definition header_includes :: "string option \<Rightarrow> string \<Rightarrow> bool" where
  "header_includes h sub = (case h of None \<Rightarrow> False | Some v \<Rightarrow> includes_str v sub)"

text \<open>
  The \<open>fetch\<close> of \<open>send\<close> (lines 158 to 169): a POST with the common headers,
  \<open>content-type\<close> and \<open>accept\<close> set, and \<open>JSON.stringify(message)\<close> as its body.
\<close>

definition post_call :: "string option \<times> string option \<Rightarrow> outgoing \<Rightarrow> fetch_call" where
  "post_call headers message =
     \<lparr>f_method = ''POST'', f_authorization = fst headers, f_session_id = snd headers,
      f_content_type = Some ''application/json'',
      f_accept = Some ''application/json, text/event-stream'',
      f_body = Some message\<rparr>"

definition throw :: "client_error \<Rightarrow> client \<Rightarrow> world \<Rightarrow> client_error option \<times> client \<times> world" where
  "throw e c w = (Some e, c_emit [ClientOnError e] c, w)"

text \<open>
  \<open>send(message)\<close> of the client (lines 155 to 223), without \<open>requestInit\<close>. The
  result says whether the call threw. The resend after a 401 is the recursive call
  of line 182; its outcome is returned as it is.
\<close>

function client_send ::
  "(string \<Rightarrow> string + message) \<Rightarrow> outgoing \<Rightarrow> client \<Rightarrow> world \<Rightarrow> client_error option \<times> client \<times> world" where
  "client_send parse message c w =
    (let hw = commonHeaders c w;
         w1 = snd hw;
         c1 = c_emit [Fetch (post_call (fst hw) message)] c
     in case fetches w1 of
          [] \<Rightarrow> throw (NetworkError []) c1 w1
        | FetchThrows e # fs \<Rightarrow> throw (NetworkError e) c1 (w1\<lparr>fetches := fs\<rparr>)
        | FetchResponse resp # fs \<Rightarrow>
           (let w2 = w1\<lparr>fetches := fs\<rparr>;
                c2 = (case resp_session_id resp of
                        None \<Rightarrow> c1
                      | Some sid \<Rightarrow> if sid \<noteq> [] then c1\<lparr>c_sessionId := Some sid\<rparr> else c1)
            in if \<not> ok resp then
                 (if status resp = 401 \<and> c_authProvider c2 then
                    (case auths w2 of
                       [] \<Rightarrow> throw (AuthThrew []) (c_emit [AuthFlow] c2) w2
                     | AuthThrows e # as \<Rightarrow> throw (AuthThrew e) (c_emit [AuthFlow] c2) (w2\<lparr>auths := as\<rparr>)
                     | REDIRECT # as \<Rightarrow> throw UnauthorizedError (c_emit [AuthFlow] c2) (w2\<lparr>auths := as\<rparr>)
                     | AUTHORIZED # as \<Rightarrow>
                         client_send parse message (c_emit [AuthFlow] c2) (w2\<lparr>auths := as\<rparr>))
                  else throw (PostError (status resp) (resp_text resp)) c2 w2)
               else if status resp = 202 then (None, c2, w2)
               else
                 (let ids = requestIds (messages_of message);
                      hasRequests = (length ids > 0)
                  in if hasRequests then
                       (if header_includes (resp_content_type resp) ''text/event-stream'' then
                          (None, handleSseStream parse (resp_stream resp) (RequestStream ids (now w2)) c2, w2)
                        else if header_includes (resp_content_type resp) ''application/json'' then
                          (case parse_body (resp_json resp) of
                             Inl e \<Rightarrow> throw (ParseError e) c2 w2
                           | Inr responseMessages \<Rightarrow>
                               (None, c_emit (map ClientOnMessage responseMessages) c2, w2))
                        else (None, c2, w2))
                     else (None, c2, w2))))"
  by pat_completeness auto
termination
proof (relation "measure (\<lambda>(parse, message, c, w). length (fetches w))")
  show "wf (measure (\<lambda>(parse, message, c, w). length (fetches w)))"
    by simp
next
  fix parse :: "string \<Rightarrow> string + message" and message :: outgoing
    and c w hw w1 c1 x21 x22 resp w2 c2 x21a as
  assume "hw = commonHeaders c w" and "w1 = snd hw" and "fetches w1 = x21 # x22"
    and "w2 = w1\<lparr>fetches := x22\<rparr>"
  moreover have "fetches (snd (commonHeaders c w)) = fetches w"
    by (simp add: commonHeaders_def split: list.splits)
  ultimately show "((parse, message, c_emit [AuthFlow] c2, w2\<lparr>auths := as\<rparr>), parse, message, c, w)
       \<in> measure (\<lambda>(parse, message, c, w). length (fetches w))"
    by simp
qed


declare client_send.simps [simp del]

declare split_str.simps [simp del]

section \<open>Client and server put together\<close>


section \<open>Reading a log\<close>

text \<open>The messages handed to the server's \<open>onmessage\<close>, in order.\<close>

fun delivered :: "event list \<Rightarrow> message list" where
  "delivered [] = []"
| "delivered (OnMessage m # es) = m # delivered es"
| "delivered (e # es) = delivered es"


fun is_map_set :: "event \<Rightarrow> bool" where
  "is_map_set (MapSet i r) = True"
| "is_map_set e = False"

fun is_on_message :: "event \<Rightarrow> bool" where
  "is_on_message (OnMessage m) = True"
| "is_on_message e = False"

text \<open>The statuses written to one response object.\<close>

fun statuses :: "res \<Rightarrow> event list \<Rightarrow> nat list" where
  "statuses r [] = []"
| "statuses r (WriteHead r' code headers # es) =
     (if r' = r then code # statuses r es else statuses r es)"
| "statuses r (e # es) = statuses r es"

text \<open>The bodies the client has posted, and how often it ran the auth flow.\<close>

fun posted :: "client_event list \<Rightarrow> outgoing list" where
  "posted [] = []"
| "posted (Fetch call # es) = (case f_body call of None \<Rightarrow> posted es | Some b \<Rightarrow> b # posted es)"
| "posted (e # es) = posted es"

fun auth_flows :: "client_event list \<Rightarrow> nat" where
  "auth_flows [] = 0"
| "auth_flows (AuthFlow # es) = Suc (auth_flows es)"
| "auth_flows (e # es) = auth_flows es"

fun received :: "client_event list \<Rightarrow> message list" where
  "received [] = []"
| "received (ClientOnMessage m # es) = m # received es"
| "received (e # es) = received es"



text \<open>
  For comparison with \<open>parse_line\<close>: the value of a field as the SSE format
  gives it, the text after the colon less one leading space if there is one.
\<close>

definition strip_one_space :: "string \<Rightarrow> string" where
  "strip_one_space v = (case v of [] \<Rightarrow> [] | c # cs \<Rightarrow> if c = CHR 0x20 then cs else c # cs)"

section \<open>Example states and requests\<close>


text \<open>A stateful transport after its initialize, session \<open>S1\<close>, with the given response map.\<close>

definition session_server :: "response_map \<Rightarrow> server" where
  "session_server m =
     \<lparr>started = True, sseResponseMapping = m, initialized = True, sessionId = Some ''S1'',
      sessionIdGenerator = Some ''S1'', log = []\<rparr>"

text \<open>A request with the headers the client sets, and the given \<open>Mcp-Session-Id\<close>.\<close>

definition http_request :: "string \<Rightarrow> string option \<Rightarrow> request" where
  "http_request method sid =
     \<lparr>req_method = method, accept = Some ''application/json, text/event-stream'',
      content_type = Some ''application/json'', mcp_session_id = map_option Single sid\<rparr>"

definition initialize_request :: message where
  "initialize_request = Request (IdNum 1) ''initialize'' None"

definition initialized_notification :: message where
  "initialized_notification = Notification ''notifications/initialized'' None"

definition new_client :: client where
  "new_client =
     \<lparr>c_sessionId = None, c_lastEventId = None, c_authProvider = True, c_activeStreams = [],
      c_log = []\<rparr>"

definition plain_response :: "nat \<Rightarrow> response" where
  "plain_response code =
     \<lparr>status = code, resp_session_id = None, resp_content_type = None, resp_text = Some [],
      resp_json = BodyError [], resp_stream = None\<rparr>"

section \<open>Properties of the server transport\<close>

lemma log_emit [simp]: "log (emit es s) = log s @ es"
  by (simp add: emit_def)

lemma fields_emit [simp]:
  "sseResponseMapping (emit es s) = sseResponseMapping s"
  "initialized (emit es s) = initialized s"
  "sessionId (emit es s) = sessionId s"
  "started (emit es s) = started s"
  "sessionIdGenerator (emit es s) = sessionIdGenerator s"
  by (simp_all add: emit_def)

lemma emit_emit [simp]: "emit es (emit es' s) = emit (es' @ es) s"
  by (simp add: emit_def)

lemma emit_Nil [simp]: "emit [] s = s"
  by (simp add: emit_def)

lemma client_accept_ok: "accept_ok (Some ''application/json, text/event-stream'')"
  by (simp add: accept_ok_def)

lemma client_content_type_ok: "content_type_ok (Some ''application/json'')"
  by (simp add: content_type_ok_def)

lemma validateSession_True:
  "fst (validateSession req r s) \<Longrightarrow> validateSession req r s = (True, s)"
  by (auto simp: validateSession_def split: option.splits header_value.splits if_splits)

lemma validateSession_session_server:
  "validateSession (http_request method (Some ''S1'')) r (session_server m) = (True, session_server m)"
  by (simp add: validateSession_def http_request_def session_server_def)

subsection \<open>The empty batch\<close>

text \<open>
  C10. A POST whose body is the empty batch, with acceptable headers, on an
  initialized server whose session check passes, is answered 202 with an empty body;
  no message is delivered, and session id, initialized flag and response map are the
  ones before the call.
\<close>

theorem empty_batch_accepted:
  assumes "accept_ok (accept req)" and "content_type_ok (content_type req)"
    and "initialized s" and "fst (validateSession req r s)"
  shows "handlePostRequest req r (BodyArray []) s = emit [WriteHead r 202 [], End r NoBody] s
    \<and> log (handlePostRequest req r (BodyArray []) s) = log s @ [WriteHead r 202 [], End r NoBody]
    \<and> delivered (log (handlePostRequest req r (BodyArray []) s)) = delivered (log s)
    \<and> sessionId (handlePostRequest req r (BodyArray []) s) = sessionId s
    \<and> initialized (handlePostRequest req r (BodyArray []) s) = initialized s
    \<and> sseResponseMapping (handlePostRequest req r (BodyArray []) s) = sseResponseMapping s"
proof -
  have v: "validateSession req r s = (True, s)"
    using assms(4) by (rule validateSession_True)
  have h: "handlePostRequest req r (BodyArray []) s = emit [WriteHead r 202 [], End r NoBody] s"
    using assms(1,2) v
    by (simp add: handlePostRequest_def isInitializationRequest_def
        hasOnlyNotificationsOrResponses_def deliver_def respond_def)
  have d: "delivered (es @ [WriteHead r 202 [], End r NoBody]) = delivered es" for es
    by (induction es rule: delivered.induct) simp_all
  show ?thesis
    by (simp add: h d)
qed

theorem empty_batch_accepted_witness:
  "log (handlePostRequest (http_request ''POST'' (Some ''S1'')) 3 (BodyArray []) (session_server [(IdNum 7, 2)]))
     = [WriteHead 3 202 [], End 3 NoBody]
   \<and> sseResponseMapping
       (handlePostRequest (http_request ''POST'' (Some ''S1'')) 3 (BodyArray []) (session_server [(IdNum 7, 2)]))
     = [(IdNum 7, 2)]"
proof -
  have a: "accept_ok (accept (http_request ''POST'' (Some ''S1'')))"
    by (simp add: http_request_def client_accept_ok)
  have c: "content_type_ok (content_type (http_request ''POST'' (Some ''S1'')))"
    by (simp add: http_request_def client_content_type_ok)
  have i: "initialized (session_server [(IdNum 7, 2)])"
    by (simp add: session_server_def)
  have v: "fst (validateSession (http_request ''POST'' (Some ''S1'')) 3 (session_server [(IdNum 7, 2)]))"
    by (simp add: validateSession_session_server)
  show ?thesis
    using empty_batch_accepted [OF a c i v] by (simp add: session_server_def)
qed

subsection \<open>Batches with requests\<close>

lemma delivered_append: "delivered (xs @ ys) = delivered xs @ delivered ys"
  by (induction xs rule: delivered.induct) simp_all


lemma log_respond: "log (respond r code hs b s) = log s @ [WriteHead r code hs, End r b]"
  by (simp add: respond_def)




lemma requestIds_Nil [simp]: "requestIds [] = []"
  by (simp add: requestIds_def List.map_filter_simps)




lemma store_requests_fields:
  "initialized (store_requests r ms s) = initialized s"
  "sessionId (store_requests r ms s) = sessionId s"
  by (induction ms arbitrary: s) (auto split: option.splits)










subsection \<open>A second initialize\<close>

lemma isInitializationRequest_iff:
  "isInitializationRequest ms \<longleftrightarrow> (\<exists>m \<in> set ms. message_method m = Some ''initialize'')"
proof -
  have "(has_method m \<and> message_method m = Some ''initialize'') = (message_method m = Some ''initialize'')" for m
    by (cases m) simp_all
  then show ?thesis
    by (simp add: isInitializationRequest_def list_ex_iff)
qed

text \<open>
  C5, as the code has it. On an initialized server, a POST with acceptable
  \<open>Accept\<close> and \<open>Content-Type\<close> headers whose body holds a message with method
  \<open>initialize\<close> is answered 400 with the JSON-RPC error -32600, "Invalid Request:
  Server already initialized"; nothing is delivered, and initialized flag, session id
  and response map stay as they were.
\<close>

theorem second_initialize_rejected:
  assumes "accept_ok (accept req)" and "content_type_ok (content_type req)"
    and "parse_body rawBody = Inr messages"
    and "m \<in> set messages" and "message_method m = Some ''initialize''"
    and "initialized s"
  shows "log (handlePostRequest req r rawBody s) =
           log s @ [WriteHead r 400 [],
                    End r (ErrorBody (- 32600) ''Invalid Request: Server already initialized'' None)]
    \<and> delivered (log (handlePostRequest req r rawBody s)) = delivered (log s)
    \<and> initialized (handlePostRequest req r rawBody s)
    \<and> sessionId (handlePostRequest req r rawBody s) = sessionId s
    \<and> sseResponseMapping (handlePostRequest req r rawBody s) = sseResponseMapping s"
proof -
  have i: "isInitializationRequest messages"
    using assms(4,5) by (auto simp: isInitializationRequest_iff)
  have h: "handlePostRequest req r rawBody s =
      emit [WriteHead r 400 [],
            End r (ErrorBody (- 32600) ''Invalid Request: Server already initialized'' None)] s"
    using assms(1,2,3,6) i by (simp add: handlePostRequest_def respond_def)
  show ?thesis
    using assms(6) by (simp add: h delivered_append)
qed

theorem second_initialize_rejected_witness:
  "log (handlePostRequest (http_request ''POST'' (Some ''S1'')) 4
          (BodyArray [Conforming initialized_notification, Conforming initialize_request])
          (session_server [(IdNum 7, 2)]))
     = [WriteHead 4 400 [],
        End 4 (ErrorBody (- 32600) ''Invalid Request: Server already initialized'' None)]
   \<and> sseResponseMapping (handlePostRequest (http_request ''POST'' (Some ''S1'')) 4
          (BodyArray [Conforming initialized_notification, Conforming initialize_request])
          (session_server [(IdNum 7, 2)])) = [(IdNum 7, 2)]"
proof -
  let ?req = "http_request ''POST'' (Some ''S1'')"
  have a: "accept_ok (accept ?req)"
    by (simp add: http_request_def client_accept_ok)
  have c: "content_type_ok (content_type ?req)"
    by (simp add: http_request_def client_content_type_ok)
  have p: "parse_body (BodyArray [Conforming initialized_notification, Conforming initialize_request])
      = Inr [initialized_notification, initialize_request]"
    by simp
  have e: "initialize_request \<in> set [initialized_notification, initialize_request]"
    by simp
  have m: "message_method initialize_request = Some ''initialize''"
    by (simp add: initialize_request_def)
  have i: "initialized (session_server [(IdNum 7, 2)])"
    by (simp add: session_server_def)
  show ?thesis
    using second_initialize_rejected [OF a c p e m i] by (simp add: session_server_def)
qed

text \<open>
  C5 as stated speaks of any POST. The header checks come first: without an
  \<open>Accept\<close> header the same body is answered 406 on an initialized server.
\<close>

theorem second_initialize_without_accept:
  "initialized (session_server [])
   \<and> log (handlePostRequest ((http_request ''POST'' (Some ''S1''))\<lparr>accept := None\<rparr>) 4
            (BodyValue (Conforming initialize_request)) (session_server []))
       = [WriteHead 4 406 [],
          End 4 (ErrorBody (- 32000)
            ''Not Acceptable: Client must accept both application/json and text/event-stream'' None)]"
  by (simp add: handlePostRequest_def accept_ok_def http_request_def respond_def session_server_def)

subsection \<open>DELETE\<close>

text \<open>
  C2, as the code has it. In a stateful session with id \<open>S1\<close>, a DELETE that carries
  \<open>Mcp-Session-Id: S1\<close> ends every response of the response map, in the order of the
  map, clears the map, calls \<open>onclose\<close> and answers 200 with an empty body. The
  transport stays initialized and keeps its session id: a later request that carries
  \<open>S1\<close> passes the session check again, it is not answered 404.
\<close>

theorem delete_closes_connections:
  assumes "initialized s" and "sessionId s = Some sid" and "sid \<noteq> []"
    and "mcp_session_id req = Some (Single sid)"
    and "mcp_session_id req' = Some (Single sid)"
  shows "log (handleDeleteRequest req r s) =
           log s @ map (\<lambda>(i, r'). End r' NoBody) (sseResponseMapping s)
             @ [MapClear, OnClose, WriteHead r 200 [], End r NoBody]
    \<and> sseResponseMapping (handleDeleteRequest req r s) = []
    \<and> initialized (handleDeleteRequest req r s)
    \<and> sessionId (handleDeleteRequest req r s) = Some sid
    \<and> validateSession req' r' (handleDeleteRequest req r s) = (True, handleDeleteRequest req r s)"
proof -
  have v: "validateSession req r s = (True, s)"
    using assms(1-4) by (simp add: validateSession_def)
  have h: "handleDeleteRequest req r s =
      emit (map (\<lambda>(i, r'). End r' NoBody) (sseResponseMapping s)
              @ [MapClear, OnClose, WriteHead r 200 [], End r NoBody])
        (s\<lparr>sseResponseMapping := []\<rparr>)"
    by (simp add: handleDeleteRequest_def v close_def respond_def)
  have f: "initialized (handleDeleteRequest req r s)" "sessionId (handleDeleteRequest req r s) = Some sid"
    using assms(1,2) by (simp_all add: h)
  have v': "validateSession req' r' (handleDeleteRequest req r s) = (True, handleDeleteRequest req r s)"
    using f assms(3,5) by (simp add: validateSession_def)
  show ?thesis
    using f v' by (simp add: h)
qed

theorem delete_closes_connections_witness:
  "log (handleDeleteRequest (http_request ''DELETE'' (Some ''S1'')) 1
          (session_server [(IdNum 7, 0), (IdNum 8, 0), (IdStr ''a'', 3)]))
     = [End 0 NoBody, End 0 NoBody, End 3 NoBody, MapClear, OnClose, WriteHead 1 200 [], End 1 NoBody]
   \<and> fst (validateSession (http_request ''POST'' (Some ''S1'')) 2
        (handleDeleteRequest (http_request ''DELETE'' (Some ''S1'')) 1
          (session_server [(IdNum 7, 0), (IdNum 8, 0), (IdStr ''a'', 3)])))"
proof -
  let ?s = "session_server [(IdNum 7, 0), (IdNum 8, 0), (IdStr ''a'', 3)]"
  have i: "initialized ?s" and sid: "sessionId ?s = Some ''S1''"
    by (simp_all add: session_server_def)
  have n: "''S1'' \<noteq> []"
    by simp
  have d: "mcp_session_id (http_request ''DELETE'' (Some ''S1'')) = Some (Single ''S1'')"
    and p: "mcp_session_id (http_request ''POST'' (Some ''S1'')) = Some (Single ''S1'')"
    by (simp_all add: http_request_def)
  show ?thesis
    using delete_closes_connections [OF i sid n d p, of 1 2] by (simp add: session_server_def)
qed

text \<open>
  C2 as stated ends with a 404 for every later POST that carries \<open>S1\<close>. After the
  DELETE such a POST is handled as before: a notification is answered 202.
\<close>

theorem post_after_delete_accepted:
  "statuses 2
     (log (handlePostRequest (http_request ''POST'' (Some ''S1'')) 2
             (BodyValue (Conforming initialized_notification))
             (handleDeleteRequest (http_request ''DELETE'' (Some ''S1'')) 1
                (session_server [(IdNum 7, 0)]))))
     = [202]
   \<and> delivered
     (log (handlePostRequest (http_request ''POST'' (Some ''S1'')) 2
             (BodyValue (Conforming initialized_notification))
             (handleDeleteRequest (http_request ''DELETE'' (Some ''S1'')) 1
                (session_server [(IdNum 7, 0)]))))
     = [initialized_notification]"
  by (simp add: handlePostRequest_def handleDeleteRequest_def validateSession_def close_def
      respond_def deliver_def http_request_def session_server_def client_accept_ok
      client_content_type_ok isInitializationRequest_def hasOnlyNotificationsOrResponses_def
      initialized_notification_def)

subsection \<open>send\<close>


lemma map_delete_filter: "map_delete k m = filter (\<lambda>p. fst p \<noteq> k) m"
  by (induction k m rule: map_delete.induct) simp_all

lemma map_get_map_delete_same: "map_get (map_delete k m) k = None"
proof (induction m)
  case Nil
  show ?case by simp
next
  case (Cons p m)
  then show ?case by (cases p) simp
qed

lemma map_get_map_delete_other: "k' \<noteq> k \<Longrightarrow> map_get (map_delete k m) k' = map_get m k'"
proof (induction m)
  case Nil
  show ?case by simp
next
  case (Cons p m)
  then show ?case by (cases p) simp
qed

lemma map_get_map_delete:
  "map_get (map_delete k m) k' = (if k' = k then None else map_get m k')"
  by (simp add: map_get_map_delete_same map_get_map_delete_other)

lemma other_ids_iff:
  "list_ex (\<lambda>(i, r). r = x \<and> i \<noteq> k) m \<longleftrightarrow> (\<exists>i. i \<noteq> k \<and> (i, x) \<in> set m)"
  unfolding list_ex_iff by fastforce

lemma map_delete_other_ids:
  "list_ex (\<lambda>(i, r). r = x \<and> i \<noteq> k) (map_delete k m) = list_ex (\<lambda>(i, r). r = x \<and> i \<noteq> k) m"
  by (induction k m rule: map_delete.induct) simp_all


text \<open>
  The routing id is the message's own id if it is a response, the related request id
  if not. \<open>send\<close> throws "No request ID provided" exactly when the routing id is absent, the
  number 0 or the empty string, and "No SSE connection established" exactly when it
  is none of these and not a key of the response map.
\<close>

lemma send_no_id:
  "(if has_result message \<or> has_error message then message_id message else rel) = None
   \<Longrightarrow> send stringify message rel s = Inl NoRequestId"
  by (simp add: send_def Let_def)

lemma send_falsy_id:
  "(if has_result message \<or> has_error message then message_id message else rel) = Some rid
   \<Longrightarrow> \<not> truthy_id rid \<Longrightarrow> send stringify message rel s = Inl NoRequestId"
  by (simp add: send_def Let_def)

lemma send_no_connection:
  "(if has_result message \<or> has_error message then message_id message else rel) = Some rid
   \<Longrightarrow> truthy_id rid \<Longrightarrow> map_get (sseResponseMapping s) rid = None
   \<Longrightarrow> send stringify message rel s = Inl (NoConnection rid)"
  by (simp add: send_def Let_def)

lemma send_connected:
  "(if has_result message \<or> has_error message then message_id message else rel) = Some rid
   \<Longrightarrow> truthy_id rid \<Longrightarrow> map_get (sseResponseMapping s) rid = Some x
   \<Longrightarrow> \<exists>s'. send stringify message rel s = Inr s'"
  by (simp add: send_def Let_def)

lemma send_errors:
  fixes message rel
  defines "routing \<equiv> (if has_result message \<or> has_error message then message_id message else rel)"
  shows "(send stringify message rel s = Inl NoRequestId) =
           (routing = None \<or> (\<exists>rid. routing = Some rid \<and> \<not> truthy_id rid))"
    and "(send stringify message rel s = Inl (NoConnection k)) =
           (routing = Some k \<and> truthy_id k \<and> map_get (sseResponseMapping s) k = None)"
proof -
  consider (none) "routing = None"
    | (falsy) rid where "routing = Some rid" "\<not> truthy_id rid"
    | (unknown) rid where "routing = Some rid" "truthy_id rid" "map_get (sseResponseMapping s) rid = None"
    | (known) rid x where "routing = Some rid" "truthy_id rid" "map_get (sseResponseMapping s) rid = Some x"
    by (cases routing) auto
  then have "((send stringify message rel s = Inl NoRequestId) =
           (routing = None \<or> (\<exists>rid. routing = Some rid \<and> \<not> truthy_id rid)))
      \<and> ((send stringify message rel s = Inl (NoConnection k)) =
           (routing = Some k \<and> truthy_id k \<and> map_get (sseResponseMapping s) k = None))"
  proof cases
    case none
    then have "send stringify message rel s = Inl NoRequestId"
      unfolding routing_def by (rule send_no_id)
    with none show ?thesis by simp
  next
    case falsy
    then have "send stringify message rel s = Inl NoRequestId"
      unfolding routing_def by (rule send_falsy_id)
    with falsy show ?thesis by auto
  next
    case unknown
    then have "send stringify message rel s = Inl (NoConnection rid)"
      unfolding routing_def by (rule send_no_connection)
    with unknown show ?thesis by auto
  next
    case known
    then obtain s' where "send stringify message rel s = Inr s'"
      unfolding routing_def using send_connected by blast
    with known show ?thesis by auto
  qed
  then show "(send stringify message rel s = Inl NoRequestId) =
           (routing = None \<or> (\<exists>rid. routing = Some rid \<and> \<not> truthy_id rid))"
    and "(send stringify message rel s = Inl (NoConnection k)) =
           (routing = Some k \<and> truthy_id k \<and> map_get (sseResponseMapping s) k = None)"
    by simp_all
qed

text \<open>
  The part of C3 the code keeps: a response whose id is in the response map and is
  neither 0 nor the empty string is written as one SSE frame to the response stored
  under the id, the id is removed, and the response is ended if and only if no other
  id of the map refers to it.
\<close>

lemma send_response_routed:
  assumes "has_result message \<or> has_error message" and "message_id message = Some rid"
    and "truthy_id rid" and "map_get (sseResponseMapping s) rid = Some x"
  shows "\<exists>s'. send stringify message rel s = Inr s'
    \<and> sseResponseMapping s' = map_delete rid (sseResponseMapping s)
    \<and> map_get (sseResponseMapping s') rid = None
    \<and> log s' = log s @ [Write x (sse_frame (stringify message)), MapDelete rid]
          @ (if \<exists>i. i \<noteq> rid \<and> (i, x) \<in> set (sseResponseMapping s) then [] else [End x NoBody])"
proof -
  let ?others = "list_ex (\<lambda>(i, r). r = x \<and> i \<noteq> rid) (sseResponseMapping s)"
  let ?s2 = "emit [Write x (sse_frame (stringify message)), MapDelete rid]
               (s\<lparr>sseResponseMapping := map_delete rid (sseResponseMapping s)\<rparr>)"
  have "send stringify message rel s = Inr (if \<not> ?others then emit [End x NoBody] ?s2 else ?s2)"
    using assms by (simp add: send_def Let_def map_delete_other_ids emit_def)
  then show ?thesis
    by (simp add: map_get_map_delete other_ids_iff)
qed

text \<open>A message that is not a response is written and changes neither map nor stream.\<close>

lemma send_related_routed:
  assumes "\<not> (has_result message \<or> has_error message)"
    and "truthy_id rid" and "map_get (sseResponseMapping s) rid = Some x"
  shows "send stringify message (Some rid) s = Inr (emit [Write x (sse_frame (stringify message))] s)"
  using assms by (simp add: send_def Let_def)

text \<open>
  C3 fails on the code for the request id 0. A client posts a request with id 0; the
  server stores the response under 0; the reply to it is refused with "No request ID
  provided", so the id stays in the map and the response is never ended.
\<close>

theorem response_to_request_zero_refused:
  "map_get (sseResponseMapping
       (handlePostRequest (http_request ''POST'' (Some ''S1'')) 6
          (BodyValue (Conforming (Request (IdNum 0) ''ping'' None))) (session_server []))) (IdNum 0)
     = Some 6
   \<and> send (\<lambda>m. ''{}'') (Response (IdNum 0) (JObj [])) None
       (handlePostRequest (http_request ''POST'' (Some ''S1'')) 6
          (BodyValue (Conforming (Request (IdNum 0) ''ping'' None))) (session_server []))
     = Inl NoRequestId"
  by (simp add: handlePostRequest_def validateSession_def http_request_def session_server_def
      client_accept_ok client_content_type_ok isInitializationRequest_def
      hasOnlyNotificationsOrResponses_def hasRequests_def deliver_def send_def)

text \<open>
  C4 fails on the code where a routing id is present but falsy in JavaScript: the
  number 0 and the empty string are keys of the map here, and \<open>send\<close> still throws
  "No request ID provided", for a related request id as for a response.
\<close>

theorem send_falsy_id_no_request_id:
  "send (\<lambda>m. ''{}'') (Notification ''notifications/progress'' None) (Some (IdNum 0))
       (session_server [(IdNum 0, 4)]) = Inl NoRequestId
   \<and> send (\<lambda>m. ''{}'') (ErrorResponse (IdStr []) (JObj [])) None
       (session_server [(IdStr [], 4)]) = Inl NoRequestId
   \<and> map_get (sseResponseMapping (session_server [(IdNum 0, 4)])) (IdNum 0) = Some 4
   \<and> map_get (sseResponseMapping (session_server [(IdStr [], 4)])) (IdStr []) = Some 4"
  by (simp add: send_def session_server_def)

section \<open>Properties of the client transport\<close>

subsection \<open>Splitting\<close>

lemma split_str_Nil [simp]: "split_str [] sep = [[]]"
  by (simp add: split_str.simps)

lemma split_str_not_Nil [simp]: "split_str s sep \<noteq> []"
  by (induction s sep rule: split_str.induct) (auto simp: split_str.simps split: list.splits)

lemma split_str_match:
  "sep \<noteq> [] \<Longrightarrow> startsWith (c # cs) sep \<Longrightarrow>
   split_str (c # cs) sep = [] # split_str (drop (length sep) (c # cs)) sep"
  by (simp add: split_str.simps)

lemma split_str_no_match:
  "\<not> (sep \<noteq> [] \<and> startsWith (c # cs) sep) \<Longrightarrow>
   split_str (c # cs) sep = (c # hd (split_str cs sep)) # tl (split_str cs sep)"
  by (cases "split_str cs sep") (auto simp: split_str.simps)

text \<open>A string that splits into one piece is that piece.\<close>

lemma split_str_single: "split_str s sep = [x] \<Longrightarrow> x = s"
proof (induction s sep arbitrary: x rule: split_str.induct)
  case (1 sep)
  then show ?case by simp
next
  case (2 c cs sep)
  show ?case
  proof (cases "sep \<noteq> [] \<and> startsWith (c # cs) sep")
    case True
    then have "split_str (c # cs) sep = [] # split_str (drop (length sep) (c # cs)) sep"
      by (simp add: split_str_match)
    with "2.prems" show ?thesis by simp
  next
    case False
    then have e: "split_str (c # cs) sep = (c # hd (split_str cs sep)) # tl (split_str cs sep)"
      by (rule split_str_no_match)
    with "2.prems" have "tl (split_str cs sep) = []" and x: "x = c # hd (split_str cs sep)"
      by simp_all
    then have "split_str cs sep = [hd (split_str cs sep)]"
      by (cases "split_str cs sep") simp_all
    with "2.IH"(2) [OF False] have "hd (split_str cs sep) = cs"
      by blast
    with x show ?thesis by simp
  qed
qed

lemma startsWith_append:
  "startsWith s p \<Longrightarrow> startsWith (s @ t) p"
  by (induction s p rule: startsWith.induct) simp_all

lemma startsWith_length: "startsWith s p \<Longrightarrow> length p \<le> length s"
  by (induction s p rule: startsWith.induct) simp_all

lemma startsWith_append_iff:
  "length p \<le> length s \<Longrightarrow> startsWith (s @ t) p = startsWith s p"
  by (induction s p rule: startsWith.induct) simp_all

lemma startsWith_take: "startsWith s p \<Longrightarrow> s = p @ drop (length p) s"
  by (induction s p rule: startsWith.induct) simp_all

text \<open>A string shorter than the separator is one piece.\<close>

lemma split_str_short: "length s < length sep \<Longrightarrow> split_str s sep = [s]"
proof (induction s)
  case Nil
  show ?case by simp
next
  case (Cons c cs)
  then have "\<not> startsWith (c # cs) sep"
    using startsWith_length [of "c # cs" sep] by auto
  then have "split_str (c # cs) sep = (c # hd (split_str cs sep)) # tl (split_str cs sep)"
    by (simp add: split_str_no_match)
  moreover from Cons have "split_str cs sep = [cs]" by simp
  ultimately show ?case by simp
qed

text \<open>
  What the read loop relies on: splitting a text that goes on is splitting what was
  there, keeping all pieces but the last, and then splitting the last piece
  together with what came after.
\<close>

lemma split_str_append:
  "split_str (s @ t) sep = butlast (split_str s sep) @ split_str (last (split_str s sep) @ t) sep"
proof (induction s sep rule: split_str.induct)
  case (1 sep)
  show ?case by simp
next
  case (2 c cs sep)
  show ?case
  proof (cases "\<exists>x. split_str (c # cs) sep = [x]")
    case True
    then obtain x where x: "split_str (c # cs) sep = [x]" by blast
    then have "x = c # cs" by (rule split_str_single)
    with x show ?thesis by simp
  next
    case several: False
    show ?thesis
    proof (cases "sep \<noteq> [] \<and> startsWith (c # cs) sep")
      case True
      then have l: "length sep \<le> length (c # cs)"
        using startsWith_length by blast
      from True have "startsWith ((c # cs) @ t) sep"
        using startsWith_append [of "c # cs" sep t] by blast
      with True have "split_str ((c # cs) @ t) sep = [] # split_str (drop (length sep) ((c # cs) @ t)) sep"
        using split_str_match [of sep c "cs @ t"] by simp
      also have "drop (length sep) ((c # cs) @ t) = drop (length sep) (c # cs) @ t"
        using l drop_append [of "length sep" "c # cs" t] by simp
      also have "split_str (drop (length sep) (c # cs) @ t) sep =
          butlast (split_str (drop (length sep) (c # cs)) sep)
            @ split_str (last (split_str (drop (length sep) (c # cs)) sep) @ t) sep"
        using "2.IH"(1) [OF True] .
      finally show ?thesis
        using True by (simp add: split_str_match)
    next
      case False
      have e: "split_str (c # cs) sep = (c # hd (split_str cs sep)) # tl (split_str cs sep)"
        using False by (rule split_str_no_match)
      with several have tl: "tl (split_str cs sep) \<noteq> []"
        by auto
      have long: "length sep \<le> length (c # cs)"
      proof (rule ccontr)
        assume "\<not> length sep \<le> length (c # cs)"
        then have "split_str (c # cs) sep = [c # cs]"
          by (simp add: split_str_short)
        with several show False by simp
      qed
      then have "\<not> (sep \<noteq> [] \<and> startsWith (c # cs @ t) sep)"
        using False startsWith_append_iff [of sep "c # cs" t] by simp
      then have "split_str (c # cs @ t) sep =
          (c # hd (split_str (cs @ t) sep)) # tl (split_str (cs @ t) sep)"
        by (rule split_str_no_match)
      moreover have "split_str (cs @ t) sep =
          butlast (split_str cs sep) @ split_str (last (split_str cs sep) @ t) sep"
        using "2.IH"(2) [OF False] .
      moreover obtain p q ps where "split_str cs sep = p # q # ps"
        using tl by (cases "split_str cs sep"; cases "tl (split_str cs sep)") auto
      ultimately show ?thesis
        using e by simp
    qed
  qed
qed

text \<open>The piece that is kept as the buffer holds no separator.\<close>

lemma split_str_last: "split_str (last (split_str s sep)) sep = [last (split_str s sep)]"
proof (induction s sep rule: split_str.induct)
  case (1 sep)
  show ?case by simp
next
  case (2 c cs sep)
  show ?case
  proof (cases "sep \<noteq> [] \<and> startsWith (c # cs) sep")
    case True
    then show ?thesis
      using "2.IH"(1) [OF True] by (simp add: split_str_match)
  next
    case False
    have e: "split_str (c # cs) sep = (c # hd (split_str cs sep)) # tl (split_str cs sep)"
      using False by (rule split_str_no_match)
    show ?thesis
    proof (cases "tl (split_str cs sep) = []")
      case True
      then have "split_str cs sep = [hd (split_str cs sep)]"
        by (cases "split_str cs sep") simp_all
      then have "hd (split_str cs sep) = cs"
        using split_str_single by blast
      with e True show ?thesis by simp
    next
      case many: False
      then have "last (split_str (c # cs) sep) = last (split_str cs sep)"
        using e by (cases "split_str cs sep") auto
      then show ?thesis
        using "2.IH"(2) [OF False] by simp
    qed
  qed
qed

subsection \<open>The read loop does not depend on how the stream is cut\<close>

lemma processStream_one:
  "processStream parse buffer [chunk] c =
     (last (split_str (buffer @ chunk) [newline, newline]),
      fold (process_event parse) (butlast (split_str (buffer @ chunk) [newline, newline])) c)"
  by (simp add: Let_def)

lemma processStream_concat:
  "split_str buffer [newline, newline] = [buffer] \<Longrightarrow>
   processStream parse buffer chunks c = processStream parse buffer [concat chunks] c"
proof (induction chunks arbitrary: buffer c)
  case Nil
  then show ?case by (simp add: Let_def)
next
  case (Cons chunk chunks)
  let ?nn = "[newline, newline]"
  let ?E = "split_str (buffer @ chunk) ?nn"
  let ?E' = "split_str (last ?E @ concat chunks) ?nn"
  have s: "split_str ((buffer @ chunk) @ concat chunks) ?nn = butlast ?E @ ?E'"
    by (rule split_str_append)
  have "processStream parse buffer (chunk # chunks) c =
      processStream parse (last ?E) chunks (fold (process_event parse) (butlast ?E) c)"
    by (simp add: Let_def)
  also have "\<dots> = processStream parse (last ?E) [concat chunks] (fold (process_event parse) (butlast ?E) c)"
    by (rule Cons.IH) (rule split_str_last)
  also have "\<dots> = (last ?E', fold (process_event parse) (butlast ?E') (fold (process_event parse) (butlast ?E) c))"
    by (rule processStream_one)
  also have "\<dots> = processStream parse buffer [concat (chunk # chunks)] c"
    using s by (simp add: Let_def butlast_append)
  finally show ?case .
qed

text \<open>
  C7. Whatever the cuts, feeding the chunks of a stream one after the other leaves
  the client as feeding the whole stream as one chunk does: the same messages were
  handed to \<open>onmessage\<close> in the same order (the same errors to \<open>onerror\<close>), the
  last event id is the same, and so is the text left in the buffer.
\<close>

theorem sse_chunking_invariant:
  "processStream parse [] chunks c = processStream parse [] [concat chunks] c
   \<and> handleSseStream parse (Some (chunks, ending)) streamId c
       = handleSseStream parse (Some ([concat chunks], ending)) streamId c
   \<and> received (c_log (handleSseStream parse (Some (chunks, ending)) streamId c))
       = received (c_log (handleSseStream parse (Some ([concat chunks], ending)) streamId c))
   \<and> c_lastEventId (handleSseStream parse (Some (chunks, ending)) streamId c)
       = c_lastEventId (handleSseStream parse (Some ([concat chunks], ending)) streamId c)"
proof -
  have p: "processStream parse [] chunks c' = processStream parse [] [concat chunks] c'" for c'
    by (rule processStream_concat) simp
  have h: "handleSseStream parse (Some (chunks, ending)) streamId c
       = handleSseStream parse (Some ([concat chunks], ending)) streamId c"
    unfolding handleSseStream_def by (simp only: p option.case prod.case)
  show ?thesis
    using p [of c] by (simp add: h)
qed

theorem sse_chunking_invariant_witness:
  "processStream (\<lambda>d. Inr (Notification d None)) []
     [''data: a'' @ [newline], [newline] @ ''id: 4'' @ [newline] @ ''data:'', ''b'' @ [newline, newline] @ ''data: c'']
     new_client
   = (''data: c'',
      new_client\<lparr>c_lastEventId := Some ''4'',
        c_log := [ClientOnMessage (Notification ''a'' None), ClientOnMessage (Notification ''b'' None)]\<rparr>)"
proof -
  have "processStream (\<lambda>d. Inr (Notification d None)) []
     [concat [''data: a'' @ [newline], [newline] @ ''id: 4'' @ [newline] @ ''data:'',
              ''b'' @ [newline, newline] @ ''data: c'']]
     new_client
   = (''data: c'',
      new_client\<lparr>c_lastEventId := Some ''4'',
        c_log := [ClientOnMessage (Notification ''a'' None), ClientOnMessage (Notification ''b'' None)]\<rparr>)"
    by code_simp
  then show ?thesis
    using sse_chunking_invariant
      [of "\<lambda>d. Inr (Notification d None)"
          "[''data: a'' @ [newline], [newline] @ ''id: 4'' @ [newline] @ ''data:'',
            ''b'' @ [newline, newline] @ ''data: c'']" new_client]
    by simp
qed

subsection \<open>The fields of an event\<close>

lemma rev_dropWhile_split:
  "xs = rev (dropWhile P (rev xs)) @ rev (takeWhile P (rev xs))"
proof -
  have "rev (takeWhile P (rev xs) @ dropWhile P (rev xs)) = xs"
    by (simp only: takeWhile_dropWhile_id rev_rev_ident)
  then show ?thesis
    by (simp only: rev_append)
qed

lemma trim_decompose:
  "\<exists>pre post. s = pre @ trim s @ post \<and> list_all is_ws pre \<and> list_all is_ws post"
proof -
  let ?d = "dropWhile is_ws s"
  have d: "?d = trim s @ rev (takeWhile is_ws (rev ?d))"
    unfolding trim_def by (rule rev_dropWhile_split)
  have "s = takeWhile is_ws s @ ?d"
    by simp
  with d have "s = takeWhile is_ws s @ trim s @ rev (takeWhile is_ws (rev ?d))"
    by simp
  moreover have "list_all is_ws (takeWhile is_ws s)"
    by (simp add: list_all_iff) (meson set_takeWhileD)
  moreover have "list_all is_ws (rev (takeWhile is_ws (rev ?d)))"
    by (simp add: list_all_iff) (meson set_takeWhileD)
  ultimately show ?thesis by blast
qed

lemma trim_ends:
  assumes "trim s \<noteq> []"
  shows "\<not> is_ws (hd (trim s)) \<and> \<not> is_ws (last (trim s))"
proof -
  let ?d = "dropWhile is_ws s"
  have r: "dropWhile is_ws (rev ?d) \<noteq> []"
    using assms by (simp add: trim_def)
  then have "\<not> is_ws (hd (dropWhile is_ws (rev ?d)))"
    by (rule hd_dropWhile)
  then have l: "\<not> is_ws (last (trim s))"
    using r by (simp add: trim_def last_rev)
  have d: "?d = trim s @ rev (takeWhile is_ws (rev ?d))"
    unfolding trim_def by (rule rev_dropWhile_split)
  have "?d \<noteq> []"
  proof
    assume "?d = []"
    with d have "trim s = []" by (metis append_is_Nil_conv)
    with assms show False by simp
  qed
  then have "\<not> is_ws (hd ?d)" by (rule hd_dropWhile)
  moreover have "hd ?d = hd (trim s)"
    using d assms by (metis hd_append2)
  ultimately show ?thesis using l by simp
qed



lemma prefixes_exclusive:
  "startsWith line ''event:'' \<Longrightarrow> \<not> startsWith line ''id:''"
  "startsWith line ''data:'' \<Longrightarrow> \<not> startsWith line ''id:''"
  "startsWith line ''data:'' \<Longrightarrow> \<not> startsWith line ''event:''"
  by (cases line; simp; fail)+

text \<open>
  C9, as the code has it. A line that begins with \<open>id:\<close>, \<open>event:\<close> or \<open>data:\<close>
  sets the field to the text after the prefix with all white space removed from both
  of its ends (\<open>trim\<close>): the text is white space, then the value, then white space,
  and the value neither begins nor ends with white space. White space inside the
  value is kept. Any other line leaves the three fields as they are.
\<close>

theorem sse_field_value:
  "(startsWith line ''id:'' \<longrightarrow>
       line = ''id:'' @ drop 3 line \<and> parse_line line f = f\<lparr>ev_id := Some (trim (drop 3 line))\<rparr>)
   \<and> (startsWith line ''event:'' \<longrightarrow>
       line = ''event:'' @ drop 6 line \<and> parse_line line f = f\<lparr>ev_eventType := Some (trim (drop 6 line))\<rparr>)
   \<and> (startsWith line ''data:'' \<longrightarrow>
       line = ''data:'' @ drop 5 line \<and> parse_line line f = f\<lparr>ev_data := Some (trim (drop 5 line))\<rparr>)
   \<and> (\<not> startsWith line ''id:'' \<and> \<not> startsWith line ''event:'' \<and> \<not> startsWith line ''data:'' \<longrightarrow>
       parse_line line f = f)
   \<and> (\<exists>pre post. v = pre @ trim v @ post \<and> list_all is_ws pre \<and> list_all is_ws post)
   \<and> (trim v \<noteq> [] \<longrightarrow> \<not> is_ws (hd (trim v)) \<and> \<not> is_ws (last (trim v)))"
proof -
  have i: "startsWith line ''id:'' \<Longrightarrow> line = ''id:'' @ drop 3 line"
    using startsWith_take [of line "''id:''"] by (simp add: eval_nat_numeral)
  have e: "startsWith line ''event:'' \<Longrightarrow> line = ''event:'' @ drop 6 line"
    using startsWith_take [of line "''event:''"] by (simp add: eval_nat_numeral)
  have d: "startsWith line ''data:'' \<Longrightarrow> line = ''data:'' @ drop 5 line"
    using startsWith_take [of line "''data:''"] by (simp add: eval_nat_numeral)
  have p: "startsWith line ''id:'' \<Longrightarrow> parse_line line f = f\<lparr>ev_id := Some (trim (drop 3 line))\<rparr>"
    "startsWith line ''event:'' \<Longrightarrow> parse_line line f = f\<lparr>ev_eventType := Some (trim (drop 6 line))\<rparr>"
    "startsWith line ''data:'' \<Longrightarrow> parse_line line f = f\<lparr>ev_data := Some (trim (drop 5 line))\<rparr>"
    "\<not> startsWith line ''id:'' \<and> \<not> startsWith line ''event:'' \<and> \<not> startsWith line ''data:''
       \<Longrightarrow> parse_line line f = f"
    using prefixes_exclusive [of line] by (auto simp: parse_line_def)
  show ?thesis
    using i e d p trim_decompose [of v] trim_ends [of v] by blast
qed

theorem sse_field_value_witness:
  "parse_line (''data:'' @ [CHR 0x20, CHR 0x09] @ ''a  b'' @ [CHR 0x20, CHR 0x20]) no_fields
     = no_fields\<lparr>ev_data := Some ''a  b''\<rparr>
   \<and> parse_line ''retry: 5'' no_fields = no_fields"
proof -
  let ?line = "''data:'' @ [CHR 0x20, CHR 0x09] @ ''a  b'' @ [CHR 0x20, CHR 0x20]"
  have s: "startsWith ?line ''data:''"
    by simp
  have t: "trim (drop 5 ?line) = ''a  b''"
    by (simp add: trim_def is_ws_def)
  have n: "\<not> startsWith ''retry: 5'' ''id:'' \<and> \<not> startsWith ''retry: 5'' ''event:''
      \<and> \<not> startsWith ''retry: 5'' ''data:''"
    by simp
  show ?thesis
    using sse_field_value [of ?line no_fields "[]"] sse_field_value [of "''retry: 5''" no_fields "[]"] s t n
    by simp
qed

text \<open>
  C9 as stated strips one leading space and keeps the rest. The code removes all
  white space at both ends: after \<open>data:\<close>, two spaces, \<open>x\<close> and a space give the
  value \<open>x\<close>, where stripping one space gives a space, \<open>x\<close> and a space.
\<close>

theorem parse_line_trims_value:
  "ev_data (parse_line ''data:  x '' no_fields) = Some ''x''
   \<and> strip_one_space (drop 5 ''data:  x '') = '' x ''"
  by (simp add: parse_line_def trim_def is_ws_def strip_one_space_def no_fields_def)

subsection \<open>send of the client: the resend after a 401\<close>

lemma posted_append: "posted (xs @ ys) = posted xs @ posted ys"
  by (induction xs rule: posted.induct) (simp_all split: option.splits)

lemma auth_flows_append: "auth_flows (xs @ ys) = auth_flows xs + auth_flows ys"
  by (induction xs rule: auth_flows.induct) simp_all

lemma received_append: "received (xs @ ys) = received xs @ received ys"
  by (induction xs rule: received.induct) simp_all

lemma c_emit_fields [simp]:
  "c_log (c_emit es c) = c_log c @ es"
  "c_sessionId (c_emit es c) = c_sessionId c"
  "c_lastEventId (c_emit es c) = c_lastEventId c"
  "c_authProvider (c_emit es c) = c_authProvider c"
  "c_activeStreams (c_emit es c) = c_activeStreams c"
  by (simp_all add: c_emit_def)

lemma commonHeaders_world [simp]:
  "fetches (snd (commonHeaders c w)) = fetches w"
  "auths (snd (commonHeaders c w)) = auths w"
  "now (snd (commonHeaders c w)) = now w"
  by (simp_all add: commonHeaders_def split: list.splits)

lemma ok_iff: "ok resp = (200 \<le> status resp \<and> status resp \<le> 299)"
  by (simp add: ok_def)

text \<open>
  One turn of the recursion: a 401 with an auth provider whose flow ends
  \<open>AUTHORIZED\<close> leads to \<open>send\<close> again, with the same message, one POST and one
  auth flow later.
\<close>

lemma client_send_unauthorized:
  assumes "c_authProvider c" and "fetches w = FetchResponse resp # fs" and "status resp = 401"
    and "auths w = AUTHORIZED # as"
  shows "\<exists>c' w'. client_send parse message c w = client_send parse message c' w'
    \<and> c_authProvider c' \<and> fetches w' = fs \<and> auths w' = as
    \<and> posted (c_log c') = posted (c_log c) @ [message]
    \<and> auth_flows (c_log c') = Suc (auth_flows (c_log c))
    \<and> received (c_log c') = received (c_log c)"
proof -
  let ?hw = "commonHeaders c w"
  let ?c1 = "c_emit [Fetch (post_call (fst ?hw) message)] c"
  let ?c2 = "case resp_session_id resp of
               None \<Rightarrow> ?c1
             | Some sid \<Rightarrow> if sid \<noteq> [] then ?c1\<lparr>c_sessionId := Some sid\<rparr> else ?c1"
  let ?c' = "c_emit [AuthFlow] ?c2"
  let ?w' = "(snd ?hw)\<lparr>fetches := fs, auths := as\<rparr>"
  have a: "c_authProvider ?c2" and l: "c_log ?c2 = c_log ?c1"
    using assms(1) by (simp_all split: option.splits)
  have "client_send parse message c w = client_send parse message ?c' ?w'"
    using assms a by (subst client_send.simps) (simp add: Let_def ok_iff)
  moreover have "c_authProvider ?c'"
    using a by simp
  moreover have "posted (c_log ?c') = posted (c_log c) @ [message]"
    by (simp add: l posted_append post_call_def)
  moreover have "auth_flows (c_log ?c') = Suc (auth_flows (c_log c))"
    by (simp add: l auth_flows_append)
  moreover have "received (c_log ?c') = received (c_log c)"
    by (simp add: l received_append)
  ultimately show ?thesis
    by (intro exI [of _ ?c'] exI [of _ ?w']) simp
qed

text \<open>The POST that is answered 202: \<open>send\<close> returns, having posted the message once.\<close>

lemma client_send_accepted:
  assumes "fetches w = FetchResponse resp # fs" and "status resp = 202"
  shows "\<exists>c' w'. client_send parse message c w = (None, c', w')
    \<and> fetches w' = fs \<and> auths w' = auths w
    \<and> posted (c_log c') = posted (c_log c) @ [message]
    \<and> auth_flows (c_log c') = auth_flows (c_log c)
    \<and> received (c_log c') = received (c_log c)"
proof -
  let ?hw = "commonHeaders c w"
  let ?c1 = "c_emit [Fetch (post_call (fst ?hw) message)] c"
  let ?c2 = "case resp_session_id resp of
               None \<Rightarrow> ?c1
             | Some sid \<Rightarrow> if sid \<noteq> [] then ?c1\<lparr>c_sessionId := Some sid\<rparr> else ?c1"
  have l: "c_log ?c2 = c_log ?c1"
    by (simp split: option.splits)
  have "client_send parse message c w = (None, ?c2, (snd ?hw)\<lparr>fetches := fs\<rparr>)"
    using assms by (subst client_send.simps) (simp add: Let_def ok_iff)
  moreover have "posted (c_log ?c2) = posted (c_log c) @ [message]"
    by (simp add: l posted_append post_call_def)
  moreover have "auth_flows (c_log ?c2) = auth_flows (c_log c)"
    by (simp add: l auth_flows_append)
  moreover have "received (c_log ?c2) = received (c_log c)"
    by (simp add: l received_append)
  ultimately show ?thesis
    by (intro exI [of _ ?c2] exI [of _ "(snd ?hw)\<lparr>fetches := fs\<rparr>"]) simp
qed

text \<open>
  C6, as the code has it. With an auth provider, every 401 whose auth flow ends
  \<open>AUTHORIZED\<close> is followed by a resend of the same message, and the resend is a
  \<open>send\<close> like the first: a 401 on it runs the auth flow and resends again. After
  \<open>n\<close> such answers and a 202, the message has been posted \<open>n + 1\<close> times and the
  auth flow has run \<open>n\<close> times; no number of retries is the last one.
\<close>

theorem unauthorized_resends_every_time:
  assumes "c_authProvider c"
    and "fetches w = map FetchResponse rs @ FetchResponse final # rest"
    and "list_all (\<lambda>resp. status resp = 401) rs"
    and "auths w = replicate (length rs) AUTHORIZED @ later"
    and "status final = 202"
  shows "\<exists>c' w'. client_send parse message c w = (None, c', w')
    \<and> posted (c_log c') = posted (c_log c) @ replicate (Suc (length rs)) message
    \<and> auth_flows (c_log c') = auth_flows (c_log c) + length rs
    \<and> received (c_log c') = received (c_log c)
    \<and> fetches w' = rest \<and> auths w' = later"
  using assms(1-4)
proof (induction rs arbitrary: c w)
  case Nil
  then have "fetches w = FetchResponse final # rest" and "auths w = later"
    by simp_all
  then show ?case
    using client_send_accepted [of w final rest parse message c] assms(5) by auto
next
  case (Cons resp rs)
  from Cons.prems have f: "fetches w = FetchResponse resp # (map FetchResponse rs @ FetchResponse final # rest)"
    and s: "status resp = 401" and a: "auths w = AUTHORIZED # (replicate (length rs) AUTHORIZED @ later)"
    and all: "list_all (\<lambda>resp. status resp = 401) rs"
    by simp_all
  from client_send_unauthorized [OF Cons.prems(1) f s a, of parse message]
  obtain c1 w1 where step: "client_send parse message c w = client_send parse message c1 w1"
    and c1: "c_authProvider c1"
    and w1: "fetches w1 = map FetchResponse rs @ FetchResponse final # rest"
      "auths w1 = replicate (length rs) AUTHORIZED @ later"
    and l1: "posted (c_log c1) = posted (c_log c) @ [message]"
      "auth_flows (c_log c1) = Suc (auth_flows (c_log c))"
      "received (c_log c1) = received (c_log c)"
    by blast
  from Cons.IH [OF c1 w1(1) all w1(2)]
  obtain c' w' where "client_send parse message c1 w1 = (None, c', w')"
    and "posted (c_log c') = posted (c_log c1) @ replicate (Suc (length rs)) message"
    and "auth_flows (c_log c') = auth_flows (c_log c1) + length rs"
    and "received (c_log c') = received (c_log c1)"
    and "fetches w' = rest" and "auths w' = later"
    by blast
  then show ?case
    using step l1 by (simp add: replicate_append_same)
qed

theorem unauthorized_resends_every_time_witness:
  "\<exists>c' w'. client_send (\<lambda>d. Inl d) (One initialize_request) new_client
        \<lparr>fetches = [FetchResponse (plain_response 401), FetchResponse (plain_response 202)],
         auths = [AUTHORIZED, REDIRECT], tokens = [Some ''t1'', Some ''t2''], now = 0\<rparr>
      = (None, c', w')
    \<and> posted (c_log c') = [One initialize_request, One initialize_request]
    \<and> auth_flows (c_log c') = 1 \<and> received (c_log c') = []
    \<and> fetches w' = [] \<and> auths w' = [REDIRECT]"
proof -
  let ?w = "\<lparr>fetches = [FetchResponse (plain_response 401), FetchResponse (plain_response 202)],
         auths = [AUTHORIZED, REDIRECT], tokens = [Some ''t1'', Some ''t2''], now = 0\<rparr>"
  have a: "c_authProvider new_client"
    by (simp add: new_client_def)
  have f: "fetches ?w = map FetchResponse [plain_response 401] @ FetchResponse (plain_response 202) # []"
    by simp
  have s: "list_all (\<lambda>resp. status resp = 401) [plain_response 401]"
    by (simp add: plain_response_def)
  have u: "auths ?w = replicate (length [plain_response 401]) AUTHORIZED @ [REDIRECT]"
    by simp
  have t: "status (plain_response 202) = 202"
    by (simp add: plain_response_def)
  show ?thesis
    using unauthorized_resends_every_time [OF a f s u t, of "\<lambda>d. Inl d" "One initialize_request"]
    by (simp add: new_client_def)
qed

text \<open>
  C6 as stated allows one resend. Two 401 answers in a row, each followed by a
  successful auth flow, give two resends: the message is posted three times.
\<close>

theorem second_unauthorized_resends_again:
  "(case client_send (\<lambda>d. Inl d) (One initialized_notification) new_client
          \<lparr>fetches = [FetchResponse (plain_response 401), FetchResponse (plain_response 401),
                       FetchResponse (plain_response 202)],
           auths = [AUTHORIZED, AUTHORIZED], tokens = [], now = 0\<rparr>
    of (err, c', w') \<Rightarrow> (err, posted (c_log c'), auth_flows (c_log c'), fetches w'))
   = (None, [One initialized_notification, One initialized_notification, One initialized_notification],
      2, [])"
  by code_simp

section \<open>From one transport to the other\<close>

subsection \<open>A frame the server wrote, read by the client\<close>

















subsection \<open>A message the client posted, read by the server\<close>

lemma parse_values_Conforming: "parse_values (map Conforming ms) = Inr ms"
  by (induction ms) simp_all





subsection \<open>What send of the client posts\<close>






subsection \<open>The round trip\<close>











end
